theory Spec2Isabelle
  imports Main "HOL-Library.Word" "HOL-Library.AList"
begin

section \<open>The memory-cached datastore with asynchronous file backing\<close>

text \<open>
  This theory embeds \<^verbatim>\<open>datastore/memcache_file.go\<close>: the write-behind layer that
  puts a memory cache (\<^verbatim>\<open>MemcacheDatastore\<close>) in front of the file based datastore.
  The functions of that file are translated one by one and keep their names. The memory
  cache itself, the path type and the file helpers live in other files of the package;
  their contracts are taken from the specification and every such definition says so.
\<close>

subsection \<open>Paths, payloads, errors and configuration\<close>

type_synonym bytes = "8 word list"

datatype PathType = PATH_TYPE_DATASTORE_PROTO | PATH_TYPE_DATASTORE_JSON

text \<open>
  Modelled from the spec: \<^verbatim>\<open>api.DSPathSpec\<close> is declared in the package
  \<^verbatim>\<open>file_store/api\<close>. A Path is a sequence of name components paired with a
  payload-encoding tag, and equality is by (components, tag).
\<close>

record DSPathSpec =
  Components :: "string list"
  Type :: PathType

text \<open>
  Modelled from the spec: the parent of a Path is the sequence with its last component
  removed, empty when at root. The tag is kept.
\<close>

definition Dir :: "DSPathSpec \<Rightarrow> DSPathSpec" where
  "Dir urn = urn\<lparr>Components := butlast (Components urn)\<rparr>"

text \<open>
  Modelled from the spec: the directory key is the component sequence in canonical form
  and does not depend on the tag. The canonical form used here is the sequence itself.
\<close>

definition AsDatastoreDirectory :: "DSPathSpec \<Rightarrow> string list" where
  "AsDatastoreDirectory urn = Components urn"

text \<open>
  The error kinds surfaced to callers, and the two run-time panics the Go code can raise:
  reading a field through a nil \<^verbatim>\<open>config_obj.Datastore\<close> and driving a
  \<^verbatim>\<open>sync.WaitGroup\<close> counter below zero.
\<close>

datatype error = NotFound | EncodeError | DecodeError | IoError
  | NilDereference | NegativeWaitGroupCounter

text \<open>
  The fields of \<^verbatim>\<open>config_proto.DatastoreConfig\<close> that this file reads. The
  declaration is generated code outside the sources; the expiry is a \<^verbatim>\<open>uint64\<close>
  (it is assigned to one), the others are compared with zero and converted with
  \<^verbatim>\<open>int(...)\<close>, which on a 64-bit platform keeps the value.
\<close>

record DatastoreConfig =
  MemcacheExpirationSec :: nat
  MemcacheWriteMutationBuffer :: int
  MemcacheWriteMutationWriters :: int
  MemcacheDatastoreMaxSize :: int
  MemcacheDatastoreMaxItemSize :: int
  MemcacheDatastoreMaxDirSize :: int

text \<open>\<^verbatim>\<open>config_obj.Datastore\<close> is a pointer: \<open>None\<close> is nil.\<close>

record Config =
  Datastore :: "DatastoreConfig option"

text \<open>
  \<^verbatim>\<open>protojson.Marshal\<close>, \<^verbatim>\<open>proto.Marshal\<close> and their inverses are library
  functions; they are parameters of the model, over any type of messages.
\<close>

record 'm codec =
  protojson_Marshal :: "'m \<Rightarrow> error + bytes"
  proto_Marshal :: "'m \<Rightarrow> error + bytes"
  protojson_Unmarshal :: "bytes \<Rightarrow> error + 'm"
  proto_Unmarshal :: "bytes \<Rightarrow> error + 'm"

subsection \<open>The two bounded caches\<close>

text \<open>
  Modelled from the spec: \<^verbatim>\<open>DirectoryMetadata\<close> is declared with the memcache core.
  It is a set of direct children known to live under a directory, with a flag \<open>full\<close>
  that \<^verbatim>\<open>IsFull\<close> reads.
\<close>

record DirectoryMetadata =
  children :: "DSPathSpec list"
  full :: bool

definition IsFull :: "DirectoryMetadata \<Rightarrow> bool" where
  "IsFull md = full md"

text \<open>
  Modelled from the spec: the bounded LRU (\<^verbatim>\<open>DataLRUCache\<close> and
  \<^verbatim>\<open>DirectoryLRUCache\<close> are declared in the memcache file, which is not among the
  sources). A cache is configured with a maximum entry count and a per-entry size cap.
  Entries are kept most recently used first; \<open>Get\<close> and \<open>Set\<close> move an entry to the
  front, \<open>Set\<close> evicts from the back, \<open>Remove\<close> drops the entry. Expiry by idle time
  is not part of the model.
\<close>

record DataLRUCache =
  data_entries :: "(DSPathSpec \<times> bytes) list"
  data_max_size :: int
  data_max_item_size :: int

record DirectoryLRUCache =
  dir_entries :: "(string list \<times> DirectoryMetadata) list"
  dir_max_size :: int
  dir_max_item_size :: int

text \<open>
  Modelled from the spec: the constructors of the two caches. Both are called with two
  integers after the configuration; the call for the data cache names them
  \<^verbatim>\<open>data_max_size\<close> and \<^verbatim>\<open>data_max_item_size\<close>, the entry count and the per-entry
  cap of a bounded LRU, in this order.
\<close>

definition NewDataLRUCache :: "int \<Rightarrow> int \<Rightarrow> DataLRUCache" where
  "NewDataLRUCache max_size max_item_size =
     \<lparr>data_entries = [], data_max_size = max_size, data_max_item_size = max_item_size\<rparr>"

definition NewDirectoryLRUCache :: "int \<Rightarrow> int \<Rightarrow> DirectoryLRUCache" where
  "NewDirectoryLRUCache max_size max_item_size =
     \<lparr>dir_entries = [], dir_max_size = max_size, dir_max_item_size = max_item_size\<rparr>"

text \<open>
  Modelled from the spec: \<open>Get\<close>, \<open>Set\<close> and \<open>Remove\<close> of the two caches, as the
  contract of the bounded LRU describes them. The data cache is keyed by the Path, the
  directory cache by the directory key.
\<close>

definition data_Get :: "DSPathSpec \<Rightarrow> DataLRUCache \<Rightarrow> bytes option \<times> DataLRUCache" where
  "data_Get key c =
     (case map_of (data_entries c) key of
        None \<Rightarrow> (None, c)
      | Some v \<Rightarrow> (Some v, c\<lparr>data_entries := (key, v) # AList.delete key (data_entries c)\<rparr>))"

text \<open>
  Modelled from the spec: an oversize item is rejected silently, it passes through
  without being cached.
\<close>

definition data_Set :: "DSPathSpec \<Rightarrow> bytes \<Rightarrow> DataLRUCache \<Rightarrow> DataLRUCache" where
  "data_Set key v c =
     (if int (length v) > data_max_item_size c then c
      else c\<lparr>data_entries :=
             take (nat (data_max_size c)) ((key, v) # AList.delete key (data_entries c))\<rparr>)"

definition data_Remove :: "DSPathSpec \<Rightarrow> DataLRUCache \<Rightarrow> DataLRUCache" where
  "data_Remove key c = c\<lparr>data_entries := AList.delete key (data_entries c)\<rparr>"

definition dir_Get ::
  "string list \<Rightarrow> DirectoryLRUCache \<Rightarrow> DirectoryMetadata option \<times> DirectoryLRUCache" where
  "dir_Get key c =
     (case map_of (dir_entries c) key of
        None \<Rightarrow> (None, c)
      | Some md \<Rightarrow> (Some md, c\<lparr>dir_entries := (key, md) # AList.delete key (dir_entries c)\<rparr>))"

definition dir_Remove :: "string list \<Rightarrow> DirectoryLRUCache \<Rightarrow> DirectoryLRUCache" where
  "dir_Remove key c = c\<lparr>dir_entries := AList.delete key (dir_entries c)\<rparr>"

text \<open>The view of a directory cache that the claims speak about: which key holds what.\<close>

definition dir_lookup :: "DirectoryLRUCache \<Rightarrow> string list \<Rightarrow> DirectoryMetadata option" where
  "dir_lookup c key = map_of (dir_entries c) key"

definition data_lookup :: "DataLRUCache \<Rightarrow> DSPathSpec \<Rightarrow> bytes option" where
  "data_lookup c key = map_of (data_entries c) key"

subsection \<open>Directory cache invalidation and the file-backed resolver\<close>

text \<open>
  \<^verbatim>\<open>invalidateDirCache\<close>: the loop runs while the path has components; each round
  looks the directory key up, removes the entry when it is present and not full, and
  moves to the parent.
\<close>

function invalidateDirCache :: "DSPathSpec \<Rightarrow> DirectoryLRUCache \<Rightarrow> DirectoryLRUCache" where
  "invalidateDirCache urn dir_cache =
     (if length (Components urn) > 0 then
        (let path = AsDatastoreDirectory urn;
             (r, c1) = dir_Get path dir_cache;
             c2 = (case r of
                     Some md \<Rightarrow>
                       if \<not> IsFull md then dir_Remove (AsDatastoreDirectory urn) c1 else c1
                   | None \<Rightarrow> c1)
         in invalidateDirCache (Dir urn) c2)
      else dir_cache)"
  by pat_completeness auto
termination
  by (relation "measure (\<lambda>(urn, c). length (Components urn))") (auto simp: Dir_def)

declare invalidateDirCache.simps [simp del]

text \<open>
  \<^verbatim>\<open>get_file_dir_metadata\<close>: the fast path returns whatever entry the directory
  holds; otherwise the loop above runs from the parent of the directory and the resolver
  reports \<^verbatim>\<open>errorNoDirectoryMetadata\<close>, here \<open>None\<close>.
\<close>

definition get_file_dir_metadata ::
  "DirectoryLRUCache \<Rightarrow> DSPathSpec \<Rightarrow> DirectoryMetadata option \<times> DirectoryLRUCache" where
  "get_file_dir_metadata dir_cache urn =
     (let path = AsDatastoreDirectory urn;
          (r, c1) = dir_Get path dir_cache
      in case r of
           Some md \<Rightarrow> (Some md, c1)
         | None \<Rightarrow> (None, invalidateDirCache (Dir urn) c1))"

subsection \<open>The memcache core\<close>

record MemcacheDatastore =
  data_cache :: DataLRUCache
  dir_cache :: DirectoryLRUCache

text \<open>
  Modelled from the spec: \<^verbatim>\<open>MemcacheDatastore.SetData\<close> is not among the sources.
  It stores the bytes in the data cache and fetches the parent's metadata through the
  injected resolver, which for this store is \<open>get_file_dir_metadata\<close>; when the resolver
  returns a metadata object the new child is added to it in place, otherwise nothing is
  created.
\<close>

definition cache_SetData ::
  "DSPathSpec \<Rightarrow> bytes \<Rightarrow> MemcacheDatastore \<Rightarrow> error option \<times> MemcacheDatastore" where
  "cache_SetData urn data c =
     (let dc = data_Set urn data (data_cache c);
          (r, dirc) = get_file_dir_metadata (dir_cache c) (Dir urn)
      in case r of
           None \<Rightarrow> (None, \<lparr>data_cache = dc, dir_cache = dirc\<rparr>)
         | Some md \<Rightarrow>
             (None, \<lparr>data_cache = dc,
                     dir_cache = dirc\<lparr>dir_entries :=
                       AList.update (AsDatastoreDirectory (Dir urn))
                         (md\<lparr>children := List.insert urn (children md)\<rparr>)
                         (dir_entries dirc)\<rparr>\<rparr>))"

text \<open>
  Modelled from the spec: \<^verbatim>\<open>MemcacheDatastore.SetSubject\<close> encodes the message per
  the Path's tag, returns an encoding error verbatim, and otherwise stores the bytes as
  \<open>cache_SetData\<close> does.
\<close>

definition cache_SetSubject ::
  "'m codec \<Rightarrow> DSPathSpec \<Rightarrow> 'm \<Rightarrow> MemcacheDatastore \<Rightarrow> error option \<times> MemcacheDatastore" where
  "cache_SetSubject cd urn message c =
     (case (if Type urn = PATH_TYPE_DATASTORE_JSON then protojson_Marshal cd message
            else proto_Marshal cd message) of
        Inl err \<Rightarrow> (Some err, c)
      | Inr serialized_content \<Rightarrow> cache_SetData urn serialized_content c)"

text \<open>
  Modelled from the spec: \<^verbatim>\<open>MemcacheDatastore.GetBuffer\<close> and
  \<^verbatim>\<open>MemcacheDatastore.GetSubject\<close> read the data cache only; a Path absent from it
  fails with NotFound, a present payload is decoded per the Path's tag.
\<close>

definition cache_GetBuffer ::
  "DSPathSpec \<Rightarrow> MemcacheDatastore \<Rightarrow> (error + bytes) \<times> MemcacheDatastore" where
  "cache_GetBuffer urn c =
     (let (r, dc) = data_Get urn (data_cache c)
      in case r of
           None \<Rightarrow> (Inl NotFound, c\<lparr>data_cache := dc\<rparr>)
         | Some v \<Rightarrow> (Inr v, c\<lparr>data_cache := dc\<rparr>))"

definition cache_GetSubject ::
  "'m codec \<Rightarrow> DSPathSpec \<Rightarrow> MemcacheDatastore \<Rightarrow> (error + 'm) \<times> MemcacheDatastore" where
  "cache_GetSubject cd urn c =
     (let (r, c1) = cache_GetBuffer urn c
      in case r of
           Inl err \<Rightarrow> (Inl err, c1)
         | Inr v \<Rightarrow>
             (if Type urn = PATH_TYPE_DATASTORE_JSON then protojson_Unmarshal cd v
              else proto_Unmarshal cd v, c1))"

text \<open>
  Modelled from the spec: \<^verbatim>\<open>MemcacheDatastore.DeleteSubject\<close> removes the Path from
  the data cache and removes the child from the parent directory's metadata if that
  metadata is present.
\<close>

definition cache_DeleteSubject ::
  "DSPathSpec \<Rightarrow> MemcacheDatastore \<Rightarrow> error option \<times> MemcacheDatastore" where
  "cache_DeleteSubject urn c =
     (let dc = data_Remove urn (data_cache c);
          (r, dirc) = dir_Get (AsDatastoreDirectory (Dir urn)) (dir_cache c)
      in case r of
           None \<Rightarrow> (None, \<lparr>data_cache = dc, dir_cache = dirc\<rparr>)
         | Some md \<Rightarrow>
             (None, \<lparr>data_cache = dc,
                     dir_cache = dirc\<lparr>dir_entries :=
                       AList.update (AsDatastoreDirectory (Dir urn))
                         (md\<lparr>children := removeAll urn (children md)\<rparr>)
                         (dir_entries dirc)\<rparr>\<rparr>))"

subsection \<open>The filesystem backend\<close>

text \<open>
  Modelled from the spec: \<^verbatim>\<open>writeContentToFile\<close>, \<^verbatim>\<open>readContentFromFile\<close> and
  \<^verbatim>\<open>file_based_imp.DeleteSubject\<close> belong to the file based datastore, which is not
  among the sources. Writing creates or replaces, reading distinguishes "not found" from
  other I/O failures, deleting is idempotent. The paths listed in \<open>broken\<close> are those on
  which every operation fails with an I/O error.
\<close>

record FileStore =
  files :: "(DSPathSpec \<times> bytes) list"
  broken :: "DSPathSpec list"

definition writeContentToFile ::
  "DSPathSpec \<Rightarrow> bytes \<Rightarrow> FileStore \<Rightarrow> error option \<times> FileStore" where
  "writeContentToFile urn data f =
     (if urn \<in> set (broken f) then (Some IoError, f)
      else (None, f\<lparr>files := AList.update urn data (files f)\<rparr>))"

definition readContentFromFile :: "DSPathSpec \<Rightarrow> bool \<Rightarrow> FileStore \<Rightarrow> error + bytes" where
  "readContentFromFile urn must_exist f =
     (if urn \<in> set (broken f) then Inl IoError
      else case map_of (files f) urn of
             Some data \<Rightarrow> Inr data
           | None \<Rightarrow> if must_exist then Inl NotFound else Inr [])"

definition file_DeleteSubject :: "DSPathSpec \<Rightarrow> FileStore \<Rightarrow> error option \<times> FileStore" where
  "file_DeleteSubject urn f =
     (if urn \<in> set (broken f) then (Some IoError, f)
      else (None, f\<lparr>files := AList.delete urn (files f)\<rparr>))"

subsection \<open>Mutations and the state of a started store\<close>

datatype MutationOp = MUTATION_OP_SET_SUBJECT | MUTATION_OP_DEL_SUBJECT

text \<open>
  A \<^verbatim>\<open>Mutation\<close>. The field \<open>wg\<close> is a pointer to the wait group of the call that
  made the mutation: here the index of its counter in \<open>wait_groups\<close>. The completion is a
  closure; it is named by a number and running it appends that number to \<open>completed\<close>.
\<close>

record Mutation =
  op :: MutationOp
  urn :: DSPathSpec
  wg :: nat
  data :: bytes
  completion :: "nat option"

text \<open>
  The store after \<^verbatim>\<open>StartWriter\<close>, together with what its functions act on: the
  channel \<open>writer\<close> (oldest mutation first) and its capacity, whether the context is
  done, how many writers are still in their loop, the filesystem, the counters of the
  wait groups made so far, the completions run so far, and the metrics this file moves.
\<close>

record State =
  cache :: MemcacheDatastore
  writer :: "Mutation list"
  writer_cap :: nat
  ctx_done :: bool
  live_writers :: nat
  fs :: FileStore
  wait_groups :: "nat list"
  completed :: "nat list"
  metricDataLRUHit :: nat
  metricDataLRUMiss :: nat
  metricIdleWriters :: int

subsection \<open>Construction and start\<close>


text \<open>
  \<^verbatim>\<open>StartWriter\<close>, for a store \<open>c\<close> over a filesystem \<open>f\<close> and a context that is done
  or not: the channel is made with \<open>buffer_size\<close> slots, \<open>writers\<close> writers are
  started (none when the number is negative), and the idle-writers gauge is incremented
  once for each. The expiry timeout it sets is not modelled.
\<close>

definition StartWriter :: "bool \<Rightarrow> Config \<Rightarrow> MemcacheDatastore \<Rightarrow> FileStore \<Rightarrow> State" where
  "StartWriter ctx config_obj c f =
     (let buffer_size0 =
            (case Datastore config_obj of
               Some d \<Rightarrow> MemcacheWriteMutationBuffer d | None \<Rightarrow> 0);
          writers0 =
            (case Datastore config_obj of
               Some d \<Rightarrow> MemcacheWriteMutationWriters d | None \<Rightarrow> 0);
          buffer_size = (if buffer_size0 \<le> 0 then 1000 else buffer_size0);
          writers = (if writers0 = 0 then 100 else writers0)
      in \<lparr>cache = c, writer = [], writer_cap = nat buffer_size, ctx_done = ctx,
          live_writers = nat (max 0 writers), fs = f,
          wait_groups = [], completed = [],
          metricDataLRUHit = 0, metricDataLRUMiss = 0,
          metricIdleWriters = max 0 writers\<rparr>)"

subsection \<open>The writer loop\<close>

text \<open>
  \<^verbatim>\<open>wg.Done()\<close> decrements the counter and panics when it would go below zero.
\<close>

definition wg_Done :: "nat \<Rightarrow> nat list \<Rightarrow> error + nat list" where
  "wg_Done w ws =
     (if w < length ws \<and> 0 < ws ! w then Inr (ws[w := ws ! w - 1])
      else Inl NegativeWaitGroupCounter)"

text \<open>
  What a writer does with a mutation it has received (the body of the second
  \<^verbatim>\<open>case\<close> of the loop). The error of \<^verbatim>\<open>writeContentToFile\<close> and the error of
  \<^verbatim>\<open>file_based_imp.DeleteSubject\<close> are dropped by the code.
\<close>

definition process_mutation :: "Mutation \<Rightarrow> State \<Rightarrow> error + State" where
  "process_mutation mutation s =
     (let s1 = s\<lparr>metricIdleWriters := metricIdleWriters s - 1\<rparr>;
          s2 = (case op mutation of
                  MUTATION_OP_SET_SUBJECT \<Rightarrow>
                    (let (_, f) = writeContentToFile (urn mutation) (data mutation) (fs s1);
                         dirc = invalidateDirCache (urn mutation) (dir_cache (cache s1));
                         ran = (case completion mutation of
                                  Some cb \<Rightarrow> completed s1 @ [cb]
                                | None \<Rightarrow> completed s1)
                     in s1\<lparr>fs := f, cache := (cache s1)\<lparr>dir_cache := dirc\<rparr>,
                           completed := ran\<rparr>)
                | MUTATION_OP_DEL_SUBJECT \<Rightarrow>
                    (let (_, f) = file_DeleteSubject (urn mutation) (fs s1);
                         dirc = invalidateDirCache (Dir (urn mutation)) (dir_cache (cache s1))
                     in s1\<lparr>fs := f, cache := (cache s1)\<lparr>dir_cache := dirc\<rparr>\<rparr>));
          s3 = s2\<lparr>metricIdleWriters := metricIdleWriters s2 + 1\<rparr>
      in case wg_Done (wg mutation) (wait_groups s3) of
           Inl err \<Rightarrow> Inl err
         | Inr ws \<Rightarrow> Inr (s3\<lparr>wait_groups := ws\<rparr>))"

text \<open>
  One round of a writer: it receives the oldest mutation of the channel and processes
  it. \<open>None\<close> when the channel is empty (the writer waits) or the round panics.
\<close>

definition writer_round :: "State \<Rightarrow> State option" where
  "writer_round s =
     (case writer s of
        [] \<Rightarrow> None
      | mutation # rest \<Rightarrow>
          (case process_mutation mutation (s\<lparr>writer := rest\<rparr>) of
             Inl err \<Rightarrow> None
           | Inr s' \<Rightarrow> Some s'))"

subsection \<open>The calls\<close>

text \<open>
  A \<^verbatim>\<open>select\<close> between \<^verbatim>\<open>ctx.Done()\<close> and a send on the channel. The send is
  ready when the channel has room. When both are ready Go takes either; the scheduler's
  pick is an argument. When neither is ready the caller stays in the \<^verbatim>\<open>select\<close>.
\<close>

datatype select_choice = Prefer_ctx_Done | Prefer_send

datatype select_result = Took_ctx_Done | Took_send | Select_blocks

definition select_ready :: "select_choice \<Rightarrow> State \<Rightarrow> select_result" where
  "select_ready choice s =
     (if ctx_done s \<and> length (writer s) < writer_cap s then
        (case choice of Prefer_ctx_Done \<Rightarrow> Took_ctx_Done | Prefer_send \<Rightarrow> Took_send)
      else if ctx_done s then Took_ctx_Done
      else if length (writer s) < writer_cap s then Took_send
      else Select_blocks)"

text \<open>
  How a call ends: it returns an error value (\<open>None\<close> is nil); or it stays in the
  \<^verbatim>\<open>select\<close>; or it stands in \<^verbatim>\<open>wg.Wait()\<close> on a wait group and returns the given
  error value once that counter is zero; or it panics.
\<close>

datatype outcome =
    Returned "error option"
  | In_select
  | In_Wait nat "error option"
  | Panicked error

definition may_return :: "outcome \<Rightarrow> State \<Rightarrow> bool" where
  "may_return out s =
     (case out of
        Returned err \<Rightarrow> True
      | In_Wait w err \<Rightarrow> w < length (wait_groups s) \<and> wait_groups s ! w = 0
      | In_select \<Rightarrow> False
      | Panicked err \<Rightarrow> False)"

definition SetSubjectWithCompletion ::
  "'m codec \<Rightarrow> Config \<Rightarrow> DSPathSpec \<Rightarrow> 'm \<Rightarrow> nat option \<Rightarrow> select_choice \<Rightarrow> State
     \<Rightarrow> outcome \<times> State" where
  "SetSubjectWithCompletion cd config_obj urn0 message completion0 choice s =
     (case (if Type urn0 = PATH_TYPE_DATASTORE_JSON then protojson_Marshal cd message
            else proto_Marshal cd message) of
        Inl err \<Rightarrow> (Returned (Some err), s)
      | Inr serialized_content \<Rightarrow>
          (let (err, c) = cache_SetSubject cd urn0 message (cache s);
               s1 = s\<lparr>cache := c\<rparr>;
               w = length (wait_groups s1);
               s2 = s1\<lparr>wait_groups := wait_groups s1 @ [1]\<rparr>
           in case select_ready choice s2 of
                Took_ctx_Done \<Rightarrow> (Returned None, s2)
              | Select_blocks \<Rightarrow> (In_select, s2)
              | Took_send \<Rightarrow>
                  (let s3 = s2\<lparr>writer := writer s2 @
                              [\<lparr>op = MUTATION_OP_SET_SUBJECT, urn = urn0, wg = w,
                                data = serialized_content, completion = completion0\<rparr>]\<rparr>
                   in case Datastore config_obj of
                        None \<Rightarrow> (Panicked NilDereference, s3)
                      | Some d \<Rightarrow>
                          if MemcacheWriteMutationBuffer d < 0 then (In_Wait w err, s3)
                          else (Returned err, s3))))"

definition SetSubject ::
  "'m codec \<Rightarrow> Config \<Rightarrow> DSPathSpec \<Rightarrow> 'm \<Rightarrow> State \<Rightarrow> error option \<times> State" where
  "SetSubject cd config_obj urn0 message s =
     (case (if Type urn0 = PATH_TYPE_DATASTORE_JSON then protojson_Marshal cd message
            else proto_Marshal cd message) of
        Inl err \<Rightarrow> (Some err, s)
      | Inr serialized_content \<Rightarrow>
          (let (err, c) = cache_SetData urn0 serialized_content (cache s);
               s1 = s\<lparr>cache := c\<rparr>
           in case err of
                Some e \<Rightarrow> (Some e, s1)
              | None \<Rightarrow>
                  (let (err2, f) = writeContentToFile urn0 serialized_content (fs s1)
                   in (err2, s1\<lparr>fs := f\<rparr>))))"

definition DeleteSubject ::
  "Config \<Rightarrow> DSPathSpec \<Rightarrow> select_choice \<Rightarrow> State \<Rightarrow> outcome \<times> State" where
  "DeleteSubject config_obj urn0 choice s =
     (let (err, c) = cache_DeleteSubject urn0 (cache s);
          s1 = s\<lparr>cache := c\<rparr>;
          w = length (wait_groups s1);
          s2 = s1\<lparr>wait_groups := wait_groups s1 @ [1]\<rparr>
      in case select_ready choice s2 of
           Select_blocks \<Rightarrow> (In_select, s2)
         | r \<Rightarrow>
             (let s3 = (case r of
                          Took_send \<Rightarrow>
                            s2\<lparr>writer := writer s2 @
                              [\<lparr>op = MUTATION_OP_DEL_SUBJECT, urn = urn0, wg = w,
                                data = [], completion = None\<rparr>]\<rparr>
                        | _ \<Rightarrow> s2)
              in case Datastore config_obj of
                   None \<Rightarrow> (Panicked NilDereference, s3)
                 | Some d \<Rightarrow>
                     if MemcacheWriteMutationBuffer d < 0 then (In_Wait w err, s3)
                     else (Returned err, s3)))"

definition SetBuffer ::
  "Config \<Rightarrow> DSPathSpec \<Rightarrow> bytes \<Rightarrow> nat option \<Rightarrow> select_choice \<Rightarrow> State
     \<Rightarrow> outcome \<times> State" where
  "SetBuffer config_obj urn0 data0 completion0 choice s =
     (let (err, c) = cache_SetData urn0 data0 (cache s);
          s1 = s\<lparr>cache := c\<rparr>
      in case err of
           Some e \<Rightarrow> (Returned (Some e), s1)
         | None \<Rightarrow>
             (let w = length (wait_groups s1);
                  s2 = s1\<lparr>wait_groups := wait_groups s1 @ [1]\<rparr>
              in case select_ready choice s2 of
                   Took_ctx_Done \<Rightarrow> (Returned None, s2)
                 | Select_blocks \<Rightarrow> (In_select, s2)
                 | Took_send \<Rightarrow>
                     (let s3 = s2\<lparr>writer := writer s2 @
                                 [\<lparr>op = MUTATION_OP_SET_SUBJECT, urn = urn0, wg = w,
                                   data = data0, completion = completion0\<rparr>]\<rparr>
                      in case Datastore config_obj of
                           None \<Rightarrow> (Panicked NilDereference, s3)
                         | Some d \<Rightarrow>
                             if MemcacheWriteMutationBuffer d < 0 then (In_Wait w None, s3)
                             else (Returned None, s3))))"

text \<open>
  \<^verbatim>\<open>os.IsNotExist(errors.Cause(err))\<close> holds of the not-found error and of no other.
\<close>

definition IsNotExist :: "error + 'a \<Rightarrow> bool" where
  "IsNotExist r = (case r of Inl NotFound \<Rightarrow> True | _ \<Rightarrow> False)"

definition GetSubject :: "'m codec \<Rightarrow> DSPathSpec \<Rightarrow> State \<Rightarrow> (error + 'm) \<times> State" where
  "GetSubject cd urn0 s =
     (let (r, c) = cache_GetSubject cd urn0 (cache s);
          s1 = s\<lparr>cache := c\<rparr>
      in if IsNotExist r then
           (case readContentFromFile urn0 True (fs s1) of
              Inl err \<Rightarrow> (Inl err, s1)
            | Inr serialized_content \<Rightarrow>
                (let s2 = s1\<lparr>metricDataLRUMiss := metricDataLRUMiss s1 + 1\<rparr>;
                     (_, c2) = cache_SetData urn0 serialized_content (cache s2);
                     s3 = s2\<lparr>cache := c2\<rparr>;
                     (r2, c3) = cache_GetSubject cd urn0 (cache s3)
                 in (r2, s3\<lparr>cache := c3\<rparr>)))
         else (r, s1\<lparr>metricDataLRUHit := metricDataLRUHit s1 + 1\<rparr>))"

definition GetBuffer :: "DSPathSpec \<Rightarrow> State \<Rightarrow> (error + bytes) \<times> State" where
  "GetBuffer urn0 s =
     (let (r, c) = cache_GetBuffer urn0 (cache s);
          s1 = s\<lparr>cache := c\<rparr>
      in case r of
           Inr bulk_data \<Rightarrow> (Inr bulk_data, s1\<lparr>metricDataLRUHit := metricDataLRUHit s1 + 1\<rparr>)
         | Inl _ \<Rightarrow>
             (case readContentFromFile urn0 True (fs s1) of
                Inl err \<Rightarrow> (Inl err, s1)
              | Inr bulk_data \<Rightarrow>
                  (let s2 = s1\<lparr>metricDataLRUMiss := metricDataLRUMiss s1 + 1\<rparr>;
                       (_, c2) = cache_SetData urn0 bulk_data (cache s2)
                   in (Inr bulk_data, s2\<lparr>cache := c2\<rparr>))))"

subsection \<open>Schedules\<close>

text \<open>
  The store is used by concurrent callers and by the writers. An execution is a list of
  events: a round of some writer that is still in its loop, a writer leaving its loop
  because the context is done, the cancellation of the context, or a call. Each event
  acts on the state at once; \<open>None\<close> when the event cannot happen (no writer is left,
  or the channel is empty) or the program panics.
\<close>

datatype 'm event =
    Writer_round
  | Writer_exit
  | Cancel
  | Call_SetSubjectWithCompletion DSPathSpec 'm "nat option" select_choice
  | Call_SetSubject DSPathSpec 'm
  | Call_SetBuffer DSPathSpec bytes "nat option" select_choice
  | Call_DeleteSubject DSPathSpec select_choice
  | Call_GetSubject DSPathSpec
  | Call_GetBuffer DSPathSpec

definition after_call :: "outcome \<times> State \<Rightarrow> State option" where
  "after_call r = (case fst r of Panicked err \<Rightarrow> None | _ \<Rightarrow> Some (snd r))"

fun exec_event :: "'m codec \<Rightarrow> Config \<Rightarrow> 'm event \<Rightarrow> State \<Rightarrow> State option" where
  "exec_event cd cfg Writer_round s = (if 0 < live_writers s then writer_round s else None)"
| "exec_event cd cfg Writer_exit s =
     (if ctx_done s \<and> 0 < live_writers s then Some (s\<lparr>live_writers := live_writers s - 1\<rparr>)
      else None)"
| "exec_event cd cfg Cancel s = Some (s\<lparr>ctx_done := True\<rparr>)"
| "exec_event cd cfg (Call_SetSubjectWithCompletion u m cb ch) s =
     after_call (SetSubjectWithCompletion cd cfg u m cb ch s)"
| "exec_event cd cfg (Call_SetSubject u m) s = Some (snd (SetSubject cd cfg u m s))"
| "exec_event cd cfg (Call_SetBuffer u b cb ch) s = after_call (SetBuffer cfg u b cb ch s)"
| "exec_event cd cfg (Call_DeleteSubject u ch) s = after_call (DeleteSubject cfg u ch s)"
| "exec_event cd cfg (Call_GetSubject u) s = Some (snd (GetSubject cd u s))"
| "exec_event cd cfg (Call_GetBuffer u) s = Some (snd (GetBuffer u s))"

fun run :: "'m codec \<Rightarrow> Config \<Rightarrow> 'm event list \<Rightarrow> State \<Rightarrow> State option" where
  "run cd cfg [] s = Some s"
| "run cd cfg (e # es) s =
     (case exec_event cd cfg e s of None \<Rightarrow> None | Some s' \<Rightarrow> run cd cfg es s')"

text \<open>
  The channel of a well-formed state: every queued mutation points to a wait group made
  earlier, no two of them to the same one, and each of these counters is one (a call
  makes its wait group with \<^verbatim>\<open>wg.Add(1)\<close> and sends it in one mutation).
\<close>

definition wf_state :: "State \<Rightarrow> bool" where
  "wf_state s =
     (distinct (map wg (writer s)) \<and>
      list_all (\<lambda>m. wg m < length (wait_groups s) \<and> wait_groups s ! wg m = 1) (writer s))"

text \<open>
  The directory keys that a walk from \<open>urn\<close> towards the root looks at: the key of
  \<open>urn\<close> and of each of its ancestors that still has a component. The root, which has
  none, is where the walk stops.
\<close>

definition walked_keys :: "DSPathSpec \<Rightarrow> string list list" where
  "walked_keys urn0 =
     map (\<lambda>n. take n (Components urn0)) (rev [1 ..< Suc (length (Components urn0))])"

subsection \<open>Concrete stores\<close>

text \<open>
  Small concrete inputs on which the theorems below are exercised. Messages are byte
  strings that encode as themselves under \<open>plain_codec\<close>; \<open>failing_codec\<close> refuses to
  encode anything.
\<close>

definition plain_codec :: "bytes codec" where
  "plain_codec = \<lparr>protojson_Marshal = Inr, proto_Marshal = Inr,
                   protojson_Unmarshal = Inr, proto_Unmarshal = Inr\<rparr>"

definition failing_codec :: "bytes codec" where
  "failing_codec = \<lparr>protojson_Marshal = (\<lambda>m. Inl EncodeError),
                     proto_Marshal = (\<lambda>m. Inl EncodeError),
                     protojson_Unmarshal = Inr, proto_Unmarshal = Inr\<rparr>"

definition unset_config :: Config where
  "unset_config = \<lparr>Datastore = Some \<lparr>MemcacheExpirationSec = 0,
     MemcacheWriteMutationBuffer = 0, MemcacheWriteMutationWriters = 0,
     MemcacheDatastoreMaxSize = 0, MemcacheDatastoreMaxItemSize = 0,
     MemcacheDatastoreMaxDirSize = 0\<rparr>\<rparr>"

definition write_through_config :: Config where
  "write_through_config = \<lparr>Datastore = Some \<lparr>MemcacheExpirationSec = 0,
     MemcacheWriteMutationBuffer = - 1, MemcacheWriteMutationWriters = 0,
     MemcacheDatastoreMaxSize = 0, MemcacheDatastoreMaxItemSize = 0,
     MemcacheDatastoreMaxDirSize = 0\<rparr>\<rparr>"

definition urn_a_b :: DSPathSpec where
  "urn_a_b = \<lparr>Components = [''a'', ''b''], Type = PATH_TYPE_DATASTORE_JSON\<rparr>"

definition urn_a_b_c :: DSPathSpec where
  "urn_a_b_c = \<lparr>Components = [''a'', ''b'', ''c''], Type = PATH_TYPE_DATASTORE_JSON\<rparr>"

definition default_cache :: MemcacheDatastore where
  "default_cache = \<lparr>data_cache = NewDataLRUCache 10000 65536,
                     dir_cache = NewDirectoryLRUCache 10000 1000\<rparr>"

definition empty_fs :: FileStore where
  "empty_fs = \<lparr>files = [], broken = []\<rparr>"

text \<open>A freshly started store, with the context live and with the context cancelled.\<close>

definition fresh_store :: State where
  "fresh_store = StartWriter False unset_config default_cache empty_fs"

definition cancelled_store :: State where
  "cancelled_store = StartWriter True write_through_config default_cache empty_fs"

text \<open>
  A directory cache in which \<^verbatim>\<open>/a\<close> holds a full listing and \<^verbatim>\<open>/a/b\<close> a lower-bound
  one, and a started store around it.
\<close>

definition md_full :: DirectoryMetadata where
  "md_full = \<lparr>children = [urn_a_b], full = True\<rparr>"

definition md_partial :: DirectoryMetadata where
  "md_partial = \<lparr>children = [], full = False\<rparr>"

definition mixed_dir_cache :: DirectoryLRUCache where
  "mixed_dir_cache = \<lparr>dir_entries = [([''a''], md_full), ([''a'', ''b''], md_partial)],
                       dir_max_size = 10000, dir_max_item_size = 1000\<rparr>"

definition mixed_store :: State where
  "mixed_store = fresh_store\<lparr>cache := default_cache\<lparr>dir_cache := mixed_dir_cache\<rparr>,
                             wait_groups := [1]\<rparr>"

definition set_mutation :: Mutation where
  "set_mutation = \<lparr>op = MUTATION_OP_SET_SUBJECT, urn = urn_a_b_c, wg = 0,
                    data = [1, 2, 3], completion = Some 7\<rparr>"

definition mixed_store_after :: State where
  "mixed_store_after =
     mixed_store\<lparr>cache := default_cache\<lparr>dir_cache := mixed_dir_cache\<lparr>dir_entries :=
                                 [([''a''], md_full)]\<rparr>\<rparr>,
                   fs := \<lparr>files = [(urn_a_b_c, [1, 2, 3])], broken = []\<rparr>,
                   wait_groups := [0],
                   completed := [7]\<rparr>"

text \<open>
  A store whose filesystem refuses every operation on \<^verbatim>\<open>/a/b/c\<close>, with one SET
  mutation for that Path waiting in the channel.
\<close>

definition broken_store :: State where
  "broken_store = mixed_store\<lparr>fs := \<lparr>files = [], broken = [urn_a_b_c]\<rparr>,
                               writer := [set_mutation]\<rparr>"

text \<open>
  A payload one byte above the default cap of 65,536 bytes for an item, and a fresh store
  over a filesystem that holds it at \<^verbatim>\<open>/a/b/c\<close>, as a \<open>SetSubject\<close> of that payload
  leaves it on disk.
\<close>

definition oversize_payload :: bytes where
  "oversize_payload = replicate 65537 0"

definition oversize_file_store :: State where
  "oversize_file_store =
     StartWriter False unset_config default_cache
       \<lparr>files = [(urn_a_b_c, oversize_payload)], broken = []\<rparr>"


definition cancelled_delete :: "outcome \<times> State" where
  "cancelled_delete = DeleteSubject write_through_config urn_a_b_c Prefer_ctx_Done cancelled_store"


section \<open>Properties\<close>

subsection \<open>Lookups in the directory cache\<close>

lemma fst_dir_Get: "fst (dir_Get k c) = dir_lookup c k"
  by (simp add: dir_Get_def dir_lookup_def split: option.splits)

lemma dir_lookup_Get: "dir_lookup (snd (dir_Get k c)) = dir_lookup c"
  by (auto simp: dir_Get_def dir_lookup_def delete_conv' fun_eq_iff split: option.splits)

lemma dir_lookup_Remove: "dir_lookup (dir_Remove k c) = (dir_lookup c)(k := None)"
  by (simp add: fun_eq_iff dir_Remove_def dir_lookup_def delete_conv')

lemma walked_keys_root: "Components u = [] \<Longrightarrow> walked_keys u = []"
  by (simp add: walked_keys_def)

lemma walked_keys_step:
  assumes "Components u \<noteq> []"
  shows "walked_keys u = Components u # walked_keys (Dir u)"
proof -
  obtain n where n: "length (Components u) = Suc n"
    using assms by (cases "Components u") auto
  have same: "map (\<lambda>k. take k (Components u)) (rev [1 ..< Suc n])
        = map (\<lambda>k. take k (butlast (Components u))) (rev [1 ..< Suc n])"
    by (rule map_cong) (auto simp: take_butlast butlast_conv_take n)
  have "[1 ..< Suc (Suc n)] = [1 ..< Suc n] @ [Suc n]"
    by (rule upt_Suc_append) simp
  then have "walked_keys u = take (Suc n) (Components u) #
                 map (\<lambda>k. take k (Components u)) (rev [1 ..< Suc n])"
    unfolding walked_keys_def n by simp
  moreover have "walked_keys (Dir u) =
                 map (\<lambda>k. take k (butlast (Components u))) (rev [1 ..< Suc n])"
    unfolding walked_keys_def Dir_def using n by simp
  ultimately show ?thesis
    using same n by simp
qed

text \<open>The keys walked are the non-empty prefixes of the component sequence.\<close>

lemma set_walked_keys:
  "set (walked_keys u) = {take n (Components u) | n. 0 < n \<and> n \<le> length (Components u)}"
  by (auto simp: walked_keys_def)

lemma walked_keys_example:
  "walked_keys urn_a_b_c = [[''a'', ''b'', ''c''], [''a'', ''b''], [''a'']]"
  by (simp add: walked_keys_def urn_a_b_c_def)

text \<open>
  What \<open>invalidateDirCache\<close> leaves under each key: an entry goes exactly when its key
  is walked and it is not full.
\<close>

lemma invalidateDirCache_lookup:
  "dir_lookup (invalidateDirCache u c) k =
     (if k \<in> set (walked_keys u) \<and> (\<exists>md. dir_lookup c k = Some md \<and> \<not> full md)
      then None else dir_lookup c k)"
proof (induction u c rule: invalidateDirCache.induct)
  case (1 u c)
  show ?case
  proof (cases "Components u = []")
    case True
    then show ?thesis
      by (subst invalidateDirCache.simps) (simp add: walked_keys_root)
  next
    case False
    let ?g = "dir_Get (AsDatastoreDirectory u) c"
    define c2 where
      "c2 = (case fst ?g of
               Some md \<Rightarrow>
                 if \<not> IsFull md then dir_Remove (AsDatastoreDirectory u) (snd ?g) else snd ?g
             | None \<Rightarrow> snd ?g)"
    have unf: "invalidateDirCache u c = invalidateDirCache (Dir u) c2"
      using False
      by (subst invalidateDirCache.simps) (simp add: c2_def Let_def case_prod_beta)
    have c2: "dir_lookup c2 k =
                (if k = Components u \<and> (\<exists>md. dir_lookup c k = Some md \<and> \<not> full md)
                 then None else dir_lookup c k)"
      by (auto simp: c2_def fst_dir_Get dir_lookup_Get dir_lookup_Remove
                     AsDatastoreDirectory_def IsFull_def split: option.splits)
    have IH: "dir_lookup (invalidateDirCache (Dir u) c2) k =
                (if k \<in> set (walked_keys (Dir u))
                    \<and> (\<exists>md. dir_lookup c2 k = Some md \<and> \<not> full md)
                 then None else dir_lookup c2 k)"
      using False
      by (intro "1.IH" [of "AsDatastoreDirectory u" ?g "fst ?g" "snd ?g" c2])
         (auto simp: c2_def)
    show ?thesis
      unfolding unf IH c2 walked_keys_step [OF False] by auto
  qed
qed

lemma process_mutation_dir_cache:
  assumes "process_mutation m s = Inr s'"
  shows "dir_cache (cache s') =
           invalidateDirCache
             (case op m of MUTATION_OP_SET_SUBJECT \<Rightarrow> urn m
                         | MUTATION_OP_DEL_SUBJECT \<Rightarrow> Dir (urn m))
             (dir_cache (cache s))"
  using assms
  by (auto simp: process_mutation_def Let_def case_prod_beta
           split: MutationOp.splits sum.splits)

lemmas store_defs =
  fresh_store_def cancelled_store_def StartWriter_def unset_config_def
  write_through_config_def default_cache_def NewDataLRUCache_def NewDirectoryLRUCache_def
  empty_fs_def urn_a_b_def urn_a_b_c_def

lemma process_set_mutation_mixed_store:
  "process_mutation set_mutation mixed_store = Inr mixed_store_after"
  by (simp add: process_mutation_def mixed_store_def mixed_store_after_def set_mutation_def
        store_defs mixed_dir_cache_def md_full_def md_partial_def
        writeContentToFile_def wg_Done_def invalidateDirCache.simps Dir_def
        AsDatastoreDirectory_def dir_Get_def dir_Remove_def IsFull_def)

text \<open>
  C5. When a writer has processed a mutation, the directory cache differs from the one
  before in this way only: walking from the mutation's Path (SET) or from the parent of
  its Path (DELETE) towards the root, every entry that was present and not full is gone.
  Every other key holds what it held; in particular an entry that is full stays.
\<close>

theorem writer_invalidates_lower_bound_ancestors:
  assumes "process_mutation m s = Inr s'"
  shows "dir_lookup (dir_cache (cache s')) k =
           (if k \<in> set (walked_keys (case op m of MUTATION_OP_SET_SUBJECT \<Rightarrow> urn m
                                                  | MUTATION_OP_DEL_SUBJECT \<Rightarrow> Dir (urn m)))
               \<and> (\<exists>md. dir_lookup (dir_cache (cache s)) k = Some md \<and> \<not> full md)
            then None
            else dir_lookup (dir_cache (cache s)) k)"
  unfolding process_mutation_dir_cache [OF assms] invalidateDirCache_lookup ..

theorem writer_invalidates_lower_bound_ancestors_witness:
  "process_mutation set_mutation mixed_store = Inr mixed_store_after
   \<and> dir_lookup (dir_cache (cache mixed_store)) [''a'', ''b''] = Some md_partial
   \<and> dir_lookup (dir_cache (cache mixed_store_after)) [''a'', ''b''] = None
   \<and> dir_lookup (dir_cache (cache mixed_store_after)) [''a''] = Some md_full"
  using process_set_mutation_mixed_store
    writer_invalidates_lower_bound_ancestors
      [OF process_set_mutation_mixed_store, of "[''a'', ''b'']"]
    writer_invalidates_lower_bound_ancestors
      [OF process_set_mutation_mixed_store, of "[''a'']"]
  by (simp add: mixed_store_def mixed_store_after_def mixed_dir_cache_def dir_lookup_def
        md_full_def md_partial_def store_defs)

subsection \<open>The file-backed resolver\<close>

text \<open>
  C6, as the code has it. The resolver is called with the directory whose metadata is
  wanted, the immediate parent of the Path being written. Whenever that directory holds
  an entry, full or not, the entry is returned for in-place update and no key of the
  cache changes. Only when the directory holds no entry does the resolver remove the
  entries that are present and not full among the directory's ancestors below the root,
  and return no metadata.
\<close>

theorem get_file_dir_metadata_returns_any_entry:
  "(dir_lookup c (AsDatastoreDirectory u) = Some md \<longrightarrow>
      fst (get_file_dir_metadata c u) = Some md
      \<and> dir_lookup (snd (get_file_dir_metadata c u)) = dir_lookup c)
   \<and> (dir_lookup c (AsDatastoreDirectory u) = None \<longrightarrow>
      fst (get_file_dir_metadata c u) = None
      \<and> (\<forall>k. dir_lookup (snd (get_file_dir_metadata c u)) k =
             (if k \<in> set (walked_keys (Dir u))
                 \<and> (\<exists>md'. dir_lookup c k = Some md' \<and> \<not> full md')
              then None else dir_lookup c k)))"
proof -
  let ?g = "dir_Get (AsDatastoreDirectory u) c"
  have res: "get_file_dir_metadata c u =
               (case fst ?g of Some md \<Rightarrow> (Some md, snd ?g)
                             | None \<Rightarrow> (None, invalidateDirCache (Dir u) (snd ?g)))"
    by (simp add: get_file_dir_metadata_def Let_def case_prod_beta)
  show ?thesis
    unfolding res fst_dir_Get
    by (auto simp: dir_lookup_Get invalidateDirCache_lookup)
qed

theorem get_file_dir_metadata_returns_any_entry_witness:
  "dir_lookup mixed_dir_cache (AsDatastoreDirectory urn_a_b) = Some md_partial
   \<and> fst (get_file_dir_metadata mixed_dir_cache urn_a_b) = Some md_partial
   \<and> dir_lookup mixed_dir_cache (AsDatastoreDirectory urn_a_b_c) = None
   \<and> fst (get_file_dir_metadata mixed_dir_cache urn_a_b_c) = None
   \<and> dir_lookup (snd (get_file_dir_metadata mixed_dir_cache urn_a_b_c)) [''a'', ''b''] = None
   \<and> dir_lookup (snd (get_file_dir_metadata mixed_dir_cache urn_a_b_c)) [''a'']
       = Some md_full"
proof -
  have present: "dir_lookup mixed_dir_cache (AsDatastoreDirectory urn_a_b) = Some md_partial"
    by (simp add: dir_lookup_def mixed_dir_cache_def AsDatastoreDirectory_def urn_a_b_def)
  have absent: "dir_lookup mixed_dir_cache (AsDatastoreDirectory urn_a_b_c) = None"
    by (simp add: dir_lookup_def mixed_dir_cache_def AsDatastoreDirectory_def urn_a_b_c_def)
  have walk: "walked_keys (Dir urn_a_b_c) = [[''a'', ''b''], [''a'']]"
    by (simp add: walked_keys_def Dir_def urn_a_b_c_def)
  have held: "dir_lookup mixed_dir_cache [''a'', ''b''] = Some md_partial"
             "dir_lookup mixed_dir_cache [''a''] = Some md_full"
    by (simp_all add: dir_lookup_def mixed_dir_cache_def)
  have flags: "\<not> full md_partial" "full md_full"
    by (simp_all add: md_partial_def md_full_def)
  show ?thesis
    using present absent
      get_file_dir_metadata_returns_any_entry [of mixed_dir_cache urn_a_b md_partial]
      get_file_dir_metadata_returns_any_entry [of mixed_dir_cache urn_a_b_c md_partial]
    by (simp add: walk held flags)
qed

text \<open>
  C6 as the specification words it fails: with a parent entry that is present but not
  full, the resolver still returns that entry and removes nothing.
\<close>

theorem get_file_dir_metadata_not_full_counterexample:
  "fst (get_file_dir_metadata mixed_dir_cache urn_a_b) = Some md_partial
   \<and> \<not> full md_partial
   \<and> dir_lookup (snd (get_file_dir_metadata mixed_dir_cache urn_a_b)) [''a'', ''b'']
       = Some md_partial"
  by code_simp

subsection \<open>Construction\<close>




subsection \<open>The write path\<close>

lemma cache_SetSubject_encoded:
  assumes "(if Type u = PATH_TYPE_DATASTORE_JSON then protojson_Marshal cd m
            else proto_Marshal cd m) = Inr payload"
  shows "cache_SetSubject cd u m c = cache_SetData u payload c"
  using assms by (simp add: cache_SetSubject_def)

lemma data_cache_SetData:
  "data_cache (snd (cache_SetData u payload c)) = data_Set u payload (data_cache c)"
  by (simp add: cache_SetData_def Let_def case_prod_beta split: option.splits)

lemma fst_cache_SetData: "fst (cache_SetData u payload c) = None"
  by (simp add: cache_SetData_def Let_def case_prod_beta split: option.splits)

text \<open>
  C7. When the message does not encode for the tag of its Path, both calls return the
  encoder's error and the state is the one before the call: no cache entry, no mutation
  in the channel, no file and no wait group has changed.
\<close>

theorem encode_error_leaves_state:
  assumes "(if Type u = PATH_TYPE_DATASTORE_JSON then protojson_Marshal cd m
            else proto_Marshal cd m) = Inl err"
  shows "SetSubject cd config_obj u m s = (Some err, s)
         \<and> SetSubjectWithCompletion cd config_obj u m cb ch s = (Returned (Some err), s)"
  using assms by (simp add: SetSubject_def SetSubjectWithCompletion_def)

theorem encode_error_leaves_state_witness:
  "(if Type urn_a_b_c = PATH_TYPE_DATASTORE_JSON then protojson_Marshal failing_codec [1, 2, 3]
    else proto_Marshal failing_codec [1, 2, 3]) = Inl EncodeError
   \<and> SetSubject failing_codec unset_config urn_a_b_c [1, 2, 3] fresh_store
       = (Some EncodeError, fresh_store)
   \<and> SetSubjectWithCompletion failing_codec unset_config urn_a_b_c [1, 2, 3] None Prefer_send
       fresh_store = (Returned (Some EncodeError), fresh_store)"
proof -
  have enc: "(if Type urn_a_b_c = PATH_TYPE_DATASTORE_JSON
              then protojson_Marshal failing_codec [1, 2, 3]
              else proto_Marshal failing_codec [1, 2, 3]) = Inl EncodeError"
    by (simp add: failing_codec_def)
  show ?thesis
    using enc encode_error_leaves_state [OF enc, of unset_config fresh_store None Prefer_send]
    by simp
qed

text \<open>
  C8. When the message encodes and the \<^verbatim>\<open>select\<close> is decided by the cancelled
  context, \<open>SetSubjectWithCompletion\<close> returns nil. The memory cache has been updated by
  the core's \<open>SetSubject\<close>; the channel, the filesystem and the completions run are as
  before the call.
\<close>

theorem cancelled_SetSubjectWithCompletion_returns_nil:
  assumes "(if Type u = PATH_TYPE_DATASTORE_JSON then protojson_Marshal cd m
            else proto_Marshal cd m) = Inr payload"
      and "select_ready ch s = Took_ctx_Done"
  shows "fst (SetSubjectWithCompletion cd config_obj u m cb ch s) = Returned None
         \<and> cache (snd (SetSubjectWithCompletion cd config_obj u m cb ch s))
             = snd (cache_SetSubject cd u m (cache s))
         \<and> data_cache (cache (snd (SetSubjectWithCompletion cd config_obj u m cb ch s)))
             = data_Set u payload (data_cache (cache s))
         \<and> writer (snd (SetSubjectWithCompletion cd config_obj u m cb ch s)) = writer s
         \<and> fs (snd (SetSubjectWithCompletion cd config_obj u m cb ch s)) = fs s
         \<and> completed (snd (SetSubjectWithCompletion cd config_obj u m cb ch s)) = completed s"
proof -
  let ?s2 = "s\<lparr>cache := snd (cache_SetSubject cd u m (cache s)),
               wait_groups := wait_groups s @ [1]\<rparr>"
  have "select_ready ch ?s2 = select_ready ch s"
    by (simp add: select_ready_def)
  then have sel: "select_ready ch ?s2 = Took_ctx_Done"
    using assms(2) by simp
  have res: "SetSubjectWithCompletion cd config_obj u m cb ch s = (Returned None, ?s2)"
    using assms(1) sel
    by (simp add: SetSubjectWithCompletion_def Let_def case_prod_beta)
  show ?thesis
    unfolding res
    by (simp add: cache_SetSubject_encoded [OF assms(1)] data_cache_SetData)
qed

theorem cancelled_SetSubjectWithCompletion_returns_nil_witness:
  "(if Type urn_a_b_c = PATH_TYPE_DATASTORE_JSON then protojson_Marshal plain_codec [1, 2, 3]
    else proto_Marshal plain_codec [1, 2, 3]) = Inr [1, 2, 3]
   \<and> select_ready Prefer_ctx_Done cancelled_store = Took_ctx_Done
   \<and> fst (SetSubjectWithCompletion plain_codec write_through_config urn_a_b_c [1, 2, 3]
            (Some 7) Prefer_ctx_Done cancelled_store) = Returned None
   \<and> writer (snd (SetSubjectWithCompletion plain_codec write_through_config urn_a_b_c
            [1, 2, 3] (Some 7) Prefer_ctx_Done cancelled_store)) = []
   \<and> data_lookup (data_cache (cache (snd (SetSubjectWithCompletion plain_codec
            write_through_config urn_a_b_c [1, 2, 3] (Some 7) Prefer_ctx_Done
            cancelled_store)))) urn_a_b_c = Some [1, 2, 3]"
proof -
  have enc: "(if Type urn_a_b_c = PATH_TYPE_DATASTORE_JSON
              then protojson_Marshal plain_codec [1, 2, 3]
              else proto_Marshal plain_codec [1, 2, 3]) = Inr [1, 2, 3]"
    by (simp add: plain_codec_def)
  have sel: "select_ready Prefer_ctx_Done cancelled_store = Took_ctx_Done"
    by (simp add: select_ready_def store_defs)
  have empty: "writer cancelled_store = []"
    by (simp add: store_defs)
  have held: "data_lookup (data_Set urn_a_b_c [1, 2, 3] (data_cache (cache cancelled_store)))
                urn_a_b_c = Some [1, 2, 3]"
    by (simp add: store_defs data_Set_def data_lookup_def)
  show ?thesis
    using enc sel empty held
      cancelled_SetSubjectWithCompletion_returns_nil
        [OF enc sel, of write_through_config "Some 7"]
    by (simp add: cache_SetSubject_encoded [OF enc] data_cache_SetData)
qed

text \<open>
  C1, as the code has it. When the message encodes and the channel takes the mutation,
  \<open>SetSubjectWithCompletion\<close> has updated the memory cache through the core's
  \<open>SetSubject\<close>, has appended to the channel one SET mutation that carries the
  serialized payload, the completion and a new wait group, and has not touched the
  filesystem. \<open>SetSubject\<close> works otherwise: it stores the payload with the core's
  \<open>SetData\<close>, writes the file itself before it returns, and sends nothing.
\<close>

theorem SetSubjectWithCompletion_enqueues_SetSubject_writes:
  assumes "(if Type u = PATH_TYPE_DATASTORE_JSON then protojson_Marshal cd m
            else proto_Marshal cd m) = Inr payload"
      and "select_ready ch s = Took_send"
  shows "cache (snd (SetSubjectWithCompletion cd config_obj u m cb ch s))
           = snd (cache_SetSubject cd u m (cache s))
         \<and> writer (snd (SetSubjectWithCompletion cd config_obj u m cb ch s))
           = writer s @ [\<lparr>op = MUTATION_OP_SET_SUBJECT, urn = u,
                           wg = length (wait_groups s), data = payload, completion = cb\<rparr>]
         \<and> fs (snd (SetSubjectWithCompletion cd config_obj u m cb ch s)) = fs s
         \<and> cache (snd (SetSubject cd config_obj u m s))
           = snd (cache_SetData u payload (cache s))
         \<and> writer (snd (SetSubject cd config_obj u m s)) = writer s
         \<and> fs (snd (SetSubject cd config_obj u m s))
           = snd (writeContentToFile u payload (fs s))
         \<and> fst (SetSubject cd config_obj u m s)
           = fst (writeContentToFile u payload (fs s))"
proof -
  let ?s2 = "s\<lparr>cache := snd (cache_SetSubject cd u m (cache s)),
               wait_groups := wait_groups s @ [1]\<rparr>"
  have "select_ready ch ?s2 = select_ready ch s"
    by (simp add: select_ready_def)
  then have sel: "select_ready ch ?s2 = Took_send"
    using assms(2) by simp
  have async: "snd (SetSubjectWithCompletion cd config_obj u m cb ch s) =
                 ?s2\<lparr>writer := writer s @ [\<lparr>op = MUTATION_OP_SET_SUBJECT, urn = u,
                           wg = length (wait_groups s), data = payload, completion = cb\<rparr>]\<rparr>"
    using assms(1) sel
    by (simp add: SetSubjectWithCompletion_def Let_def case_prod_beta split: option.splits)
  have sync: "SetSubject cd config_obj u m s =
                (fst (writeContentToFile u payload (fs s)),
                 s\<lparr>cache := snd (cache_SetData u payload (cache s)),
                   fs := snd (writeContentToFile u payload (fs s))\<rparr>)"
    using assms(1)
    by (simp add: SetSubject_def Let_def case_prod_beta fst_cache_SetData)
  show ?thesis
    unfolding async sync by simp
qed

theorem SetSubjectWithCompletion_enqueues_SetSubject_writes_witness:
  "(if Type urn_a_b_c = PATH_TYPE_DATASTORE_JSON then protojson_Marshal plain_codec [1, 2, 3]
    else proto_Marshal plain_codec [1, 2, 3]) = Inr [1, 2, 3]
   \<and> select_ready Prefer_send fresh_store = Took_send
   \<and> writer (snd (SetSubjectWithCompletion plain_codec unset_config urn_a_b_c [1, 2, 3]
        (Some 7) Prefer_send fresh_store))
       = [\<lparr>op = MUTATION_OP_SET_SUBJECT, urn = urn_a_b_c, wg = 0, data = [1, 2, 3],
           completion = Some 7\<rparr>]
   \<and> fs (snd (SetSubjectWithCompletion plain_codec unset_config urn_a_b_c [1, 2, 3]
        (Some 7) Prefer_send fresh_store)) = empty_fs"
proof -
  have enc: "(if Type urn_a_b_c = PATH_TYPE_DATASTORE_JSON
              then protojson_Marshal plain_codec [1, 2, 3]
              else proto_Marshal plain_codec [1, 2, 3]) = Inr [1, 2, 3]"
    by (simp add: plain_codec_def)
  have sel: "select_ready Prefer_send fresh_store = Took_send"
    by (simp add: select_ready_def store_defs)
  have start: "writer fresh_store = []" "wait_groups fresh_store = []"
              "fs fresh_store = empty_fs"
    by (simp_all add: fresh_store_def StartWriter_def Let_def)
  show ?thesis
    using enc sel
      SetSubjectWithCompletion_enqueues_SetSubject_writes
        [OF enc sel, of unset_config "Some 7"]
    by (simp add: start)
qed

text \<open>
  C1 as the specification words it fails for \<open>SetSubject\<close>: on a fresh store the call
  returns with the channel still empty and the payload already in the file. It also
  fails for a \<open>SetSubjectWithCompletion\<close> that meets a cancelled context: the message
  encodes, and nothing is sent.
\<close>

theorem SetSubject_writes_through_counterexample:
  "fst (SetSubject plain_codec unset_config urn_a_b_c [1, 2, 3] fresh_store) = None
   \<and> writer (snd (SetSubject plain_codec unset_config urn_a_b_c [1, 2, 3] fresh_store)) = []
   \<and> map_of (files (fs fresh_store)) urn_a_b_c = None
   \<and> map_of (files (fs (snd (SetSubject plain_codec unset_config urn_a_b_c [1, 2, 3]
        fresh_store)))) urn_a_b_c = Some [1, 2, 3]
   \<and> fst (SetSubjectWithCompletion plain_codec write_through_config urn_a_b_c [1, 2, 3]
        None Prefer_ctx_Done cancelled_store) = Returned None
   \<and> writer (snd (SetSubjectWithCompletion plain_codec write_through_config urn_a_b_c
        [1, 2, 3] None Prefer_ctx_Done cancelled_store)) = []"
  by code_simp

subsection \<open>The writer\<close>

text \<open>
  C9. A writer that receives a SET mutation whose wait group is still counted runs the
  mutation's completion, if it has one, and releases the wait group, whatever
  \<^verbatim>\<open>writeContentToFile\<close> returned: also when the write fails and the filesystem stays
  as it was. The mutation has left the channel and nothing puts it back.
\<close>

theorem writer_round_completes_SET:
  assumes "writer s = m # rest"
      and "op m = MUTATION_OP_SET_SUBJECT"
      and "wg m < length (wait_groups s)"
      and "0 < wait_groups s ! wg m"
  shows "\<exists>s'. writer_round s = Some s'
           \<and> writer s' = rest
           \<and> completed s' = completed s @ (case completion m of Some cb \<Rightarrow> [cb] | None \<Rightarrow> [])
           \<and> wait_groups s' = (wait_groups s)[wg m := wait_groups s ! wg m - 1]
           \<and> fs s' = snd (writeContentToFile (urn m) (data m) (fs s))
           \<and> (if urn m \<in> set (broken (fs s)) then fs s' = fs s
               else map_of (files (fs s')) (urn m) = Some (data m))"
  using assms
  by (simp add: writer_round_def process_mutation_def wg_Done_def writeContentToFile_def
        Let_def case_prod_beta update_conv' split: option.splits)

theorem writer_round_completes_SET_witness:
  "writer broken_store = set_mutation # []
   \<and> op set_mutation = MUTATION_OP_SET_SUBJECT
   \<and> wg set_mutation < length (wait_groups broken_store)
   \<and> 0 < wait_groups broken_store ! wg set_mutation
   \<and> urn set_mutation \<in> set (broken (fs broken_store))
   \<and> (\<exists>s'. writer_round broken_store = Some s'
          \<and> writer s' = []
          \<and> completed s' = [7]
          \<and> wait_groups s' = [0]
          \<and> fs s' = fs broken_store)"
proof -
  have queue: "writer broken_store = set_mutation # []"
    by (simp add: broken_store_def)
  have kind: "op set_mutation = MUTATION_OP_SET_SUBJECT"
    by (simp add: set_mutation_def)
  have counted: "wg set_mutation < length (wait_groups broken_store)"
                "0 < wait_groups broken_store ! wg set_mutation"
    by (simp_all add: set_mutation_def broken_store_def mixed_store_def)
  have fails: "urn set_mutation \<in> set (broken (fs broken_store))"
    by (simp add: set_mutation_def broken_store_def)
  have before: "completed broken_store = []" "wait_groups broken_store = [1]"
               "wg set_mutation = 0" "completion set_mutation = Some 7"
    by (simp_all add: set_mutation_def broken_store_def mixed_store_def store_defs)
  show ?thesis
    using queue kind counted fails writer_round_completes_SET [OF queue kind counted]
    by (auto simp: before)
qed

subsection \<open>The read path\<close>

lemma data_Get_absent:
  "data_lookup c u = None \<Longrightarrow> data_Get u c = (None, c)"
  by (simp add: data_Get_def data_lookup_def)

lemma data_Get_present:
  "data_lookup c u = Some v \<Longrightarrow> fst (data_Get u c) = Some v"
  by (simp add: data_Get_def data_lookup_def)

lemma cache_GetBuffer_absent:
  "data_lookup (data_cache c) u = None \<Longrightarrow> cache_GetBuffer u c = (Inl NotFound, c)"
  by (simp add: cache_GetBuffer_def data_Get_absent)

lemma cache_GetSubject_absent:
  "data_lookup (data_cache c) u = None \<Longrightarrow> cache_GetSubject cd u c = (Inl NotFound, c)"
  by (simp add: cache_GetSubject_def cache_GetBuffer_absent)

lemma cache_GetSubject_present:
  "data_lookup (data_cache c) u = Some v \<Longrightarrow>
     fst (cache_GetSubject cd u c) =
       (if Type u = PATH_TYPE_DATASTORE_JSON then protojson_Unmarshal cd v
        else proto_Unmarshal cd v)"
  using data_Get_present [of "data_cache c" u v]
  by (simp add: cache_GetSubject_def cache_GetBuffer_def case_prod_beta
           split: option.splits)

lemma data_lookup_Set_kept:
  assumes "int (length v) \<le> data_max_item_size c" and "0 < data_max_size c"
  shows "data_lookup (data_Set u v c) u = Some v"
proof -
  obtain n where "nat (data_max_size c) = Suc n"
    using assms(2) by (cases "nat (data_max_size c)") auto
  then show ?thesis
    using assms(1) by (simp add: data_Set_def data_lookup_def)
qed

lemma data_lookup_Set_oversize:
  assumes "int (length v) > data_max_item_size c"
  shows "data_Set u v c = c"
  using assms by (simp add: data_Set_def)

text \<open>
  What the two reads do on a miss. \<open>GetBuffer\<close> hands out the bytes it read from the
  file; \<open>GetSubject\<close> stores them and then asks the cache a second time.
\<close>

lemma GetBuffer_miss:
  assumes "data_lookup (data_cache (cache s)) u = None"
  shows "GetBuffer u s =
           (case readContentFromFile u True (fs s) of
              Inl err \<Rightarrow> (Inl err, s)
            | Inr bulk_data \<Rightarrow>
                (Inr bulk_data,
                 s\<lparr>metricDataLRUMiss := metricDataLRUMiss s + 1,
                   cache := snd (cache_SetData u bulk_data (cache s))\<rparr>))"
  by (simp add: GetBuffer_def cache_GetBuffer_absent [OF assms] Let_def case_prod_beta
           split: sum.splits)

lemma GetSubject_miss:
  assumes "data_lookup (data_cache (cache s)) u = None"
  shows "GetSubject cd u s =
           (case readContentFromFile u True (fs s) of
              Inl err \<Rightarrow> (Inl err, s)
            | Inr serialized_content \<Rightarrow>
                (fst (cache_GetSubject cd u (snd (cache_SetData u serialized_content (cache s)))),
                 s\<lparr>metricDataLRUMiss := metricDataLRUMiss s + 1,
                   cache := snd (cache_GetSubject cd u
                                  (snd (cache_SetData u serialized_content (cache s))))\<rparr>))"
  by (simp add: GetSubject_def cache_GetSubject_absent [OF assms] IsNotExist_def Let_def
           case_prod_beta split: sum.splits)

lemma readContentFromFile_missing:
  "u \<notin> set (broken f) \<Longrightarrow> map_of (files f) u = None
     \<Longrightarrow> readContentFromFile u True f = Inl NotFound"
  by (simp add: readContentFromFile_def)

text \<open>A file that does not exist is reported as not found by both reads.\<close>

lemma miss_on_missing_file:
  assumes "data_lookup (data_cache (cache s)) u = None"
      and "u \<notin> set (broken (fs s))" and "map_of (files (fs s)) u = None"
  shows "GetSubject cd u s = (Inl NotFound, s) \<and> GetBuffer u s = (Inl NotFound, s)"
  by (simp add: GetSubject_miss [OF assms(1)] GetBuffer_miss [OF assms(1)]
        readContentFromFile_missing [OF assms(2,3)])

text \<open>
  Within the cap the second lookup of \<open>GetSubject\<close> finds what was just stored, and the
  call returns the decoded file.
\<close>

lemma GetSubject_miss_within_cap:
  assumes "data_lookup (data_cache (cache s)) u = None"
      and "readContentFromFile u True (fs s) = Inr payload"
      and "int (length payload) \<le> data_max_item_size (data_cache (cache s))"
      and "0 < data_max_size (data_cache (cache s))"
  shows "fst (GetSubject cd u s) =
           (if Type u = PATH_TYPE_DATASTORE_JSON then protojson_Unmarshal cd payload
            else proto_Unmarshal cd payload)
         \<and> metricDataLRUMiss (snd (GetSubject cd u s)) = metricDataLRUMiss s + 1"
proof -
  have "data_lookup (data_cache (snd (cache_SetData u payload (cache s)))) u = Some payload"
    unfolding data_cache_SetData using assms(3,4) by (rule data_lookup_Set_kept)
  then show ?thesis
    by (simp add: GetSubject_miss [OF assms(1)] assms(2) cache_GetSubject_present)
qed

lemma length_oversize_payload: "length oversize_payload = 65537"
  unfolding oversize_payload_def by (rule length_replicate)

text \<open>
  C2 fails on the code for \<open>GetSubject\<close>. The file \<^verbatim>\<open>/a/b/c\<close> exists and holds a
  payload above the per-item cap of the data cache; the Path is not cached. The read of
  the file succeeds and the miss is counted, but the cache does not keep an item of this
  size, so the second lookup, of which the code says "This call should work because it
  is in cache", fails and the caller is told the Path does not exist. \<open>GetBuffer\<close> on
  the same store returns the bytes of the file.
\<close>

theorem GetSubject_oversize_file_not_found:
  "data_lookup (data_cache (cache oversize_file_store)) urn_a_b_c = None
   \<and> readContentFromFile urn_a_b_c True (fs oversize_file_store) = Inr oversize_payload
   \<and> fst (GetSubject plain_codec urn_a_b_c oversize_file_store) = Inl NotFound
   \<and> metricDataLRUMiss (snd (GetSubject plain_codec urn_a_b_c oversize_file_store)) = 1
   \<and> fst (GetBuffer urn_a_b_c oversize_file_store) = Inr oversize_payload"
proof -
  have absent: "data_lookup (data_cache (cache oversize_file_store)) urn_a_b_c = None"
    by (simp add: oversize_file_store_def store_defs data_lookup_def)
  have on_disk: "readContentFromFile urn_a_b_c True (fs oversize_file_store)
                   = Inr oversize_payload"
    by (simp add: oversize_file_store_def StartWriter_def Let_def readContentFromFile_def)
  have cap: "data_max_item_size (data_cache (cache oversize_file_store)) = 65536"
    by (simp add: oversize_file_store_def store_defs)
  have "data_Set urn_a_b_c oversize_payload (data_cache (cache oversize_file_store))
          = data_cache (cache oversize_file_store)"
    by (rule data_lookup_Set_oversize) (simp add: cap length_oversize_payload)
  then have still_absent:
    "data_lookup (data_cache (snd (cache_SetData urn_a_b_c oversize_payload
        (cache oversize_file_store)))) urn_a_b_c = None"
    unfolding data_cache_SetData using absent by simp
  have miss0: "metricDataLRUMiss oversize_file_store = 0"
    by (simp add: oversize_file_store_def StartWriter_def Let_def)
  show ?thesis
    by (simp add: absent on_disk GetSubject_miss [OF absent] GetBuffer_miss [OF absent]
          cache_GetSubject_absent [OF still_absent] miss0)
qed

subsection \<open>Wait groups along a schedule\<close>

text \<open>
  What one event does to the channel and to the wait groups. A call leaves both alone,
  or makes one wait group, counted once, and sends at most one mutation, which points to
  it. A round of a writer takes the oldest mutation and decrements its wait group.
\<close>

lemma SetSubjectWithCompletion_channel:
  "(writer (snd (SetSubjectWithCompletion cd cfg u m cb ch s)) = writer s
      \<and> wait_groups (snd (SetSubjectWithCompletion cd cfg u m cb ch s)) = wait_groups s)
   \<or> (wait_groups (snd (SetSubjectWithCompletion cd cfg u m cb ch s)) = wait_groups s @ [1]
      \<and> (writer (snd (SetSubjectWithCompletion cd cfg u m cb ch s)) = writer s
          \<or> (\<exists>mu. writer (snd (SetSubjectWithCompletion cd cfg u m cb ch s)) = writer s @ [mu]
                \<and> wg mu = length (wait_groups s))))"
  by (simp add: SetSubjectWithCompletion_def Let_def case_prod_beta
           split: sum.splits select_result.splits option.splits)

lemma SetBuffer_channel:
  "(writer (snd (SetBuffer cfg u b cb ch s)) = writer s
      \<and> wait_groups (snd (SetBuffer cfg u b cb ch s)) = wait_groups s)
   \<or> (wait_groups (snd (SetBuffer cfg u b cb ch s)) = wait_groups s @ [1]
      \<and> (writer (snd (SetBuffer cfg u b cb ch s)) = writer s
          \<or> (\<exists>mu. writer (snd (SetBuffer cfg u b cb ch s)) = writer s @ [mu]
                \<and> wg mu = length (wait_groups s))))"
  by (simp add: SetBuffer_def Let_def case_prod_beta
           split: sum.splits select_result.splits option.splits)

lemma DeleteSubject_channel:
  "(writer (snd (DeleteSubject cfg u ch s)) = writer s
      \<and> wait_groups (snd (DeleteSubject cfg u ch s)) = wait_groups s)
   \<or> (wait_groups (snd (DeleteSubject cfg u ch s)) = wait_groups s @ [1]
      \<and> (writer (snd (DeleteSubject cfg u ch s)) = writer s
          \<or> (\<exists>mu. writer (snd (DeleteSubject cfg u ch s)) = writer s @ [mu]
                \<and> wg mu = length (wait_groups s))))"
  by (simp add: DeleteSubject_def Let_def case_prod_beta
           split: sum.splits select_result.splits option.splits)

lemma SetSubject_channel:
  "writer (snd (SetSubject cd cfg u m s)) = writer s
   \<and> wait_groups (snd (SetSubject cd cfg u m s)) = wait_groups s"
  by (simp add: SetSubject_def Let_def case_prod_beta split: sum.splits option.splits)

lemma GetSubject_channel:
  "writer (snd (GetSubject cd u s)) = writer s
   \<and> wait_groups (snd (GetSubject cd u s)) = wait_groups s"
  by (simp add: GetSubject_def Let_def case_prod_beta split: sum.splits)

lemma GetBuffer_channel:
  "writer (snd (GetBuffer u s)) = writer s
   \<and> wait_groups (snd (GetBuffer u s)) = wait_groups s"
  by (simp add: GetBuffer_def Let_def case_prod_beta split: sum.splits)

lemma process_mutation_channel:
  assumes "process_mutation m s = Inr s'"
  shows "writer s' = writer s \<and> wg m < length (wait_groups s) \<and> 0 < wait_groups s ! wg m
         \<and> wait_groups s' = (wait_groups s)[wg m := wait_groups s ! wg m - 1]
         \<and> live_writers s' = live_writers s"
  using assms
  by (auto simp: process_mutation_def wg_Done_def Let_def case_prod_beta
           split: MutationOp.splits if_splits)

lemma writer_round_channel:
  assumes "writer_round s = Some s'"
  shows "\<exists>m rest. writer s = m # rest \<and> process_mutation m (s\<lparr>writer := rest\<rparr>) = Inr s'
           \<and> writer s' = rest \<and> wg m < length (wait_groups s) \<and> 0 < wait_groups s ! wg m
           \<and> wait_groups s' = (wait_groups s)[wg m := wait_groups s ! wg m - 1]"
proof (cases "writer s")
  case Nil
  then show ?thesis using assms by (simp add: writer_round_def)
next
  case (Cons m rest)
  then have p: "process_mutation m (s\<lparr>writer := rest\<rparr>) = Inr s'"
    using assms by (simp add: writer_round_def split: sum.splits)
  show ?thesis
    using Cons p process_mutation_channel [OF p] by simp
qed

lemma exec_event_channel:
  assumes "exec_event cd cfg ev s = Some s'"
  shows "(writer s' = writer s \<and> wait_groups s' = wait_groups s)
         \<or> (wait_groups s' = wait_groups s @ [1]
            \<and> (writer s' = writer s
                \<or> (\<exists>mu. writer s' = writer s @ [mu] \<and> wg mu = length (wait_groups s))))
         \<or> (ev = Writer_round
            \<and> (\<exists>m rest. writer s = m # rest \<and> writer s' = rest
                  \<and> wg m < length (wait_groups s) \<and> 0 < wait_groups s ! wg m
                  \<and> wait_groups s' = (wait_groups s)[wg m := wait_groups s ! wg m - 1]))"
proof (cases ev)
  case Writer_round
  then show ?thesis
    using assms writer_round_channel [of s s'] by (auto split: if_splits)
next
  case Writer_exit
  then show ?thesis using assms by (auto split: if_splits)
next
  case Cancel
  then show ?thesis using assms by auto
next
  case (Call_SetSubjectWithCompletion u m cb ch)
  then have e: "s' = snd (SetSubjectWithCompletion cd cfg u m cb ch s)"
    using assms by (simp add: after_call_def split: outcome.splits)
  show ?thesis
    unfolding e using SetSubjectWithCompletion_channel [of cd cfg u m cb ch s] by blast
next
  case (Call_SetSubject u m)
  then show ?thesis
    using assms SetSubject_channel [of cd cfg u m s] by auto
next
  case (Call_SetBuffer u b cb ch)
  then have e: "s' = snd (SetBuffer cfg u b cb ch s)"
    using assms by (simp add: after_call_def split: outcome.splits)
  show ?thesis
    unfolding e using SetBuffer_channel [of cfg u b cb ch s] by blast
next
  case (Call_DeleteSubject u ch)
  then have e: "s' = snd (DeleteSubject cfg u ch s)"
    using assms by (simp add: after_call_def split: outcome.splits)
  show ?thesis
    unfolding e using DeleteSubject_channel [of cfg u ch s] by blast
next
  case (Call_GetSubject u)
  then show ?thesis
    using assms GetSubject_channel [of cd u s] by auto
next
  case (Call_GetBuffer u)
  then show ?thesis
    using assms GetBuffer_channel [of u s] by auto
qed

text \<open>
  A wait group to which no queued mutation points keeps its counter: writers reach wait
  groups through the channel only, and a call counts a wait group of its own.
\<close>

lemma unqueued_event:
  assumes "exec_event cd cfg ev s = Some s'"
      and "w < length (wait_groups s)"
      and "w \<notin> wg ` set (writer s)"
  shows "w < length (wait_groups s') \<and> wait_groups s' ! w = wait_groups s ! w
         \<and> w \<notin> wg ` set (writer s')"
  using exec_event_channel [OF assms(1)] assms(2,3)
  by (auto simp: nth_append)

lemma unqueued_run:
  assumes "run cd cfg evs s = Some t"
      and "w < length (wait_groups s)"
      and "w \<notin> wg ` set (writer s)"
  shows "w < length (wait_groups t) \<and> wait_groups t ! w = wait_groups s ! w"
  using assms
proof (induction evs arbitrary: s)
  case Nil
  then show ?case by simp
next
  case (Cons ev evs)
  from Cons.prems(1) obtain s1 where
    step: "exec_event cd cfg ev s = Some s1" and rest: "run cd cfg evs s1 = Some t"
    by (auto split: option.splits)
  note kept = unqueued_event [OF step Cons.prems(2,3)]
  from kept rest have "w < length (wait_groups t) \<and> wait_groups t ! w = wait_groups s1 ! w"
    by (intro Cons.IH) auto
  with kept show ?case by simp
qed

lemma wf_state_bound:
  "wf_state s \<Longrightarrow> m \<in> set (writer s) \<Longrightarrow> wg m < length (wait_groups s)"
  by (auto simp: wf_state_def list_all_iff)

text \<open>
  C4 fails on the code. With the mutation buffer negative and the \<^verbatim>\<open>select\<close> decided
  by the cancelled context, \<open>DeleteSubject\<close> leaves the \<^verbatim>\<open>select\<close> with
  \<^verbatim>\<open>break\<close> and goes on to \<^verbatim>\<open>wg.Wait()\<close>. Nothing was sent, so no writer will
  ever hold this wait group: whatever the writers and the other callers do afterwards,
  its counter stays one and the call does not return.
\<close>

theorem DeleteSubject_cancelled_write_through_never_returns:
  assumes "wf_state s"
      and "Datastore cfg = Some d"
      and "MemcacheWriteMutationBuffer d < 0"
      and "select_ready ch s = Took_ctx_Done"
  shows "fst (DeleteSubject cfg u ch s)
           = In_Wait (length (wait_groups s)) (fst (cache_DeleteSubject u (cache s)))
         \<and> writer (snd (DeleteSubject cfg u ch s)) = writer s
         \<and> (\<forall>evs t. run cd cfg evs (snd (DeleteSubject cfg u ch s)) = Some t
               \<longrightarrow> \<not> may_return (fst (DeleteSubject cfg u ch s)) t)"
proof -
  let ?w = "length (wait_groups s)"
  let ?s2 = "s\<lparr>cache := snd (cache_DeleteSubject u (cache s)),
               wait_groups := wait_groups s @ [1]\<rparr>"
  have "select_ready ch ?s2 = select_ready ch s"
    by (simp add: select_ready_def)
  then have sel: "select_ready ch ?s2 = Took_ctx_Done"
    using assms(4) by simp
  have res: "DeleteSubject cfg u ch s = (In_Wait ?w (fst (cache_DeleteSubject u (cache s))), ?s2)"
    using assms(2,3) sel
    by (simp add: DeleteSubject_def Let_def case_prod_beta)
  have fresh: "?w \<notin> wg ` set (writer ?s2)"
    using wf_state_bound [OF assms(1)] by fastforce
  have stays: "\<not> may_return (In_Wait ?w e) t" if "run cd cfg evs ?s2 = Some t" for evs t e
    using unqueued_run [OF that, of ?w] fresh by (simp add: may_return_def)
  show ?thesis
    unfolding res using stays by simp
qed

theorem DeleteSubject_cancelled_write_through_never_returns_witness:
  "wf_state cancelled_store
   \<and> Datastore write_through_config = Some (the (Datastore write_through_config))
   \<and> MemcacheWriteMutationBuffer (the (Datastore write_through_config)) < 0
   \<and> select_ready Prefer_ctx_Done cancelled_store = Took_ctx_Done
   \<and> fst cancelled_delete = In_Wait 0 None
   \<and> writer (snd cancelled_delete) = []
   \<and> run plain_codec write_through_config [Cancel, Call_GetBuffer urn_a_b_c]
        (snd cancelled_delete) \<noteq> None
   \<and> \<not> may_return (fst cancelled_delete)
         (the (run plain_codec write_through_config [Cancel, Call_GetBuffer urn_a_b_c]
                 (snd cancelled_delete)))"
proof -
  have wf: "wf_state cancelled_store"
    by (simp add: wf_state_def store_defs)
  have sec: "Datastore write_through_config = Some (the (Datastore write_through_config))"
    by (simp add: write_through_config_def)
  have neg: "MemcacheWriteMutationBuffer (the (Datastore write_through_config)) < 0"
    by (simp add: write_through_config_def)
  have sel: "select_ready Prefer_ctx_Done cancelled_store = Took_ctx_Done"
    by (simp add: select_ready_def store_defs)
  have runs: "run plain_codec write_through_config [Cancel, Call_GetBuffer urn_a_b_c]
                (snd cancelled_delete) \<noteq> None"
    by simp
  then have final: "run plain_codec write_through_config [Cancel, Call_GetBuffer urn_a_b_c]
                (snd cancelled_delete) =
              Some (the (run plain_codec write_through_config
                 [Cancel, Call_GetBuffer urn_a_b_c] (snd cancelled_delete)))"
    by simp
  have before: "wait_groups cancelled_store = []" "writer cancelled_store = []"
    by (simp_all add: store_defs)
  have removed: "fst (cache_DeleteSubject urn_a_b_c (cache cancelled_store)) = None"
    by (simp add: cache_DeleteSubject_def Let_def case_prod_beta split: option.splits)
  note inst = DeleteSubject_cancelled_write_through_never_returns
               [OF wf sec neg sel, of urn_a_b_c plain_codec, folded cancelled_delete_def]
  from inst final have "\<not> may_return (fst cancelled_delete)
         (the (run plain_codec write_through_config [Cancel, Call_GetBuffer urn_a_b_c]
                 (snd cancelled_delete)))"
    by blast
  with inst wf sec neg sel runs show ?thesis
    by (simp add: before removed)
qed









end
